theory Spec2Isabelle
  imports Main "HOL-Library.Word"
begin

unbundle bit_operations_syntax

section \<open>The C library and the socket interface as main.c uses them\<close>

text \<open>
  \<^verbatim>\<open>src/main.c\<close> is one function, \<^verbatim>\<open>main\<close>. Everything it does is a call of the C
  library or of the operating system, so the embedding has three layers: the library
  functions whose value the program uses (\<^verbatim>\<open>atoi\<close>, \<^verbatim>\<open>htons\<close>, the \<^verbatim>\<open>%d\<close> of
  \<^verbatim>\<open>printf\<close>), the record of what the process does (a trace of calls and the set of
  descriptors it holds), and \<^verbatim>\<open>main\<close> itself, cut at its comments into the reading of
  the port, the bootstrap, the body of the loop and the loop.
\<close>

subsection \<open>Characters and decimal numbers\<close>

type_synonym byte = "8 word"

definition nl :: char where
  "nl = CHR 0x0A"

text \<open>\<^verbatim>\<open>isspace\<close> and \<^verbatim>\<open>isdigit\<close> in the C locale.\<close>

definition isspace :: "char \<Rightarrow> bool" where
  "isspace c = (c = CHR 0x20 \<or> c = CHR 0x09 \<or> c = CHR 0x0A \<or> c = CHR 0x0B \<or> c = CHR 0x0C \<or> c = CHR 0x0D)"

definition isdigit :: "char \<Rightarrow> bool" where
  "isdigit c = (48 \<le> (of_char c :: nat) \<and> (of_char c :: nat) \<le> 57)"

definition digit_val :: "char \<Rightarrow> int" where
  "digit_val c = int (of_char c) - 48"

text \<open>
  The digit loop of \<^verbatim>\<open>strtol\<close> in base 10: it consumes digits while there are some and
  stops at the first other character.
\<close>

fun digits_value :: "int \<Rightarrow> string \<Rightarrow> int" where
  "digits_value acc [] = acc"
| "digits_value acc (c # cs) =
     (if isdigit c then digits_value (10 * acc + digit_val c) cs else acc)"

text \<open>
  \<^verbatim>\<open>atoi(nptr)\<close> is \<^verbatim>\<open>(int) strtol(nptr, NULL, 10)\<close> (ISO C 7.22.1.2): leading white space
  is skipped, one sign is accepted, then the digits are read; with no digit there the
  value is 0. The result here is the mathematical value. C leaves \<^verbatim>\<open>atoi\<close> undefined when
  that value does not fit an \<^verbatim>\<open>int\<close>, so theorems about arguments of any size carry the
  bound \<open>in_int_range\<close>.
\<close>

definition atoi :: "string \<Rightarrow> int" where
  "atoi s =
     (case dropWhile isspace s of
        [] \<Rightarrow> 0
      | c # cs \<Rightarrow>
          if c = CHR ''-'' then - digits_value 0 cs
          else if c = CHR ''+'' then digits_value 0 cs
          else digits_value 0 (c # cs))"

definition in_int_range :: "int \<Rightarrow> bool" where
  "in_int_range i = (- (2 ^ 31) \<le> i \<and> i < 2 ^ 31)"

text \<open>
  Decimal notation, as \<^verbatim>\<open>%d\<close> prints an \<^verbatim>\<open>int\<close> and as a user writes a port number on
  the command line.
\<close>

definition digit_char :: "nat \<Rightarrow> char" where
  "digit_char d = char_of (48 + d)"

fun dec_nat :: "nat \<Rightarrow> string" where
  "dec_nat n = (if n < 10 then [digit_char n] else dec_nat (n div 10) @ [digit_char (n mod 10)])"

declare dec_nat.simps [simp del]

definition dec_int :: "int \<Rightarrow> string" where
  "dec_int i = (if i < 0 then CHR ''-'' # dec_nat (nat (- i)) else dec_nat (nat i))"

text \<open>
  What \<^verbatim>\<open>atoi\<close> needs in order to read a number: after the white space and one optional
  sign, a digit.
\<close>

definition has_number :: "string \<Rightarrow> bool" where
  "has_number s =
     (case dropWhile isspace s of
        [] \<Rightarrow> False
      | c # cs \<Rightarrow>
          if c = CHR ''-'' \<or> c = CHR ''+'' then (case cs of [] \<Rightarrow> False | d # _ \<Rightarrow> isdigit d)
          else isdigit c)"

subsection \<open>Byte order\<close>

text \<open>
  \<^verbatim>\<open>htons\<close> takes a \<^verbatim>\<open>uint16_t\<close>: on a little-endian host it swaps the two bytes, on a
  big-endian host it is the identity. The kernel reads \<^verbatim>\<open>sin6_port\<close> back with
  \<^verbatim>\<open>ntohs\<close>, the same function.
\<close>

definition bswap16 :: "16 word \<Rightarrow> 16 word" where
  "bswap16 w = push_bit 8 w OR drop_bit 8 w"

definition htons :: "bool \<Rightarrow> 16 word \<Rightarrow> 16 word" where
  "htons big_endian w = (if big_endian then w else bswap16 w)"

definition ntohs :: "bool \<Rightarrow> 16 word \<Rightarrow> 16 word" where
  "ntohs big_endian w = (if big_endian then w else bswap16 w)"

subsection \<open>Sockets\<close>

datatype address_family = AF_INET | AF_INET6

datatype socket_type = SOCK_STREAM | SOCK_DGRAM

datatype option_level = SOL_SOCKET | IPPROTO_IPV6

datatype option_name = SO_REUSEADDR | IPV6_V6ONLY

record sockaddr_in6 =
  sin6_family :: address_family
  sin6_port :: "16 word"
  sin6_flowinfo :: "32 word"
  sin6_addr :: "128 word"
  sin6_scope_id :: "32 word"

definition in6addr_any :: "128 word" where
  "in6addr_any = 0"

definition EXIT_FAILURE :: int where
  "EXIT_FAILURE = 1"

text \<open>The port a socket address names, as the kernel reads it.\<close>

definition port_of :: "bool \<Rightarrow> sockaddr_in6 \<Rightarrow> nat" where
  "port_of big_endian a = unat (ntohs big_endian (sin6_port a))"

subsection \<open>What the process does\<close>

text \<open>
  One event for each call that \<^verbatim>\<open>main\<close> makes, with the arguments it passes. \<open>Write\<close>
  carries the bytes handed to \<^verbatim>\<open>write\<close>, \<open>Setsockopt\<close> the value of the \<^verbatim>\<open>int\<close> option.
\<close>

datatype event =
    Socket address_family socket_type int
  | Setsockopt int option_level option_name int
  | Bind int sockaddr_in6
  | Listen int int
  | Accept int
  | Write int "byte list"
  | Close int
  | Perror string
  | Printf string

text \<open>
  The process: the calls made so far, oldest first, and the descriptors it holds (those
  that \<^verbatim>\<open>socket\<close> and \<^verbatim>\<open>accept\<close> returned and \<^verbatim>\<open>close\<close> has not released).
\<close>

record proc =
  trace :: "event list"
  fds :: "int set"

definition start :: proc where
  "start = \<lparr>trace = [], fds = {}\<rparr>"

text \<open>
  The environment: what the system answers. The bootstrap makes each of its calls at most
  once, so one answer each; \<open>accept_res env i\<close> answers the \<open>i\<close>-th call of \<^verbatim>\<open>accept\<close>.
  \<open>stack_address\<close> is what the uninitialised \<^verbatim>\<open>address\<close> holds on entry, and
  \<open>big_endian\<close> the byte order of the host. The answers of \<^verbatim>\<open>write\<close>, \<^verbatim>\<open>close\<close>,
  \<^verbatim>\<open>printf\<close> and \<^verbatim>\<open>perror\<close> are absent: \<^verbatim>\<open>main\<close> discards them.
\<close>

record env =
  socket_res :: int
  reuseaddr_res :: int
  v6only_res :: int
  bind_res :: int
  listen_res :: int
  accept_res :: "nat \<Rightarrow> int"
  stack_address :: sockaddr_in6
  big_endian :: bool

definition emit :: "event \<Rightarrow> proc \<Rightarrow> proc" where
  "emit e st = st\<lparr>trace := trace st @ [e]\<rparr>"

text \<open>A descriptor returned by \<^verbatim>\<open>socket\<close> or \<^verbatim>\<open>accept\<close> is held from then on; \<open>-1\<close> is none.\<close>

definition acquire :: "int \<Rightarrow> proc \<Rightarrow> proc" where
  "acquire fd st = (if 0 \<le> fd then st\<lparr>fds := insert fd (fds st)\<rparr> else st)"

definition close_fd :: "int \<Rightarrow> proc \<Rightarrow> proc" where
  "close_fd fd st = (emit (Close fd) st)\<lparr>fds := fds st - {fd}\<rparr>"

subsection \<open>main\<close>

text \<open>
  \<^verbatim>\<open>exit(status)\<close> ends the process: a step of \<^verbatim>\<open>main\<close> either does so or goes on
  with a value.
\<close>

datatype 'a outcome = Exit int | Ok 'a

text \<open>
  Lines 14 to 17: \<^verbatim>\<open>int port = 1848; if (argc > 1) port = atoi(argv[1]);\<close>.
  \<open>argv\<close> is the whole vector, program name first, and \<^verbatim>\<open>argc\<close> its length.
\<close>

definition read_port :: "string list \<Rightarrow> int" where
  "read_port argv = (if 1 < length argv then atoi (argv ! 1) else 1848)"

text \<open>
  Lines 19 to 53, the bootstrap. The tests are those of the source: \<^verbatim>\<open>== 0\<close> on the
  result of \<^verbatim>\<open>socket\<close>, non-zero on both \<^verbatim>\<open>setsockopt\<close>, \<^verbatim>\<open>< 0\<close> on \<^verbatim>\<open>bind\<close> and
  \<^verbatim>\<open>listen\<close>. \<^verbatim>\<open>htons(port)\<close> converts the \<^verbatim>\<open>int\<close> to \<^verbatim>\<open>uint16_t\<close> first, which
  is \<open>word_of_int\<close>.
\<close>

definition bootstrap :: "env \<Rightarrow> int \<Rightarrow> proc \<Rightarrow> proc \<times> int outcome" where
  "bootstrap env port st =
     (let opt = 1;
          server_fd = socket_res env;
          st1 = acquire server_fd (emit (Socket AF_INET6 SOCK_STREAM 0) st)
      in if server_fd = 0
         then (emit (Perror ''socket failed'') st1, Exit EXIT_FAILURE)
         else
     (let st2 = emit (Setsockopt server_fd SOL_SOCKET SO_REUSEADDR opt) st1
      in if reuseaddr_res env \<noteq> 0
         then (emit (Perror ''setsockopt'') st2, Exit EXIT_FAILURE)
         else
     (let no = 0;
          st3 = emit (Setsockopt server_fd IPPROTO_IPV6 IPV6_V6ONLY no) st2
      in if v6only_res env \<noteq> 0
         then (emit (Perror ''setsockopt IPV6_V6ONLY'') st3, Exit EXIT_FAILURE)
         else
     (let address = (stack_address env)
            \<lparr>sin6_family := AF_INET6,
             sin6_addr := in6addr_any,
             sin6_port := htons (big_endian env) (word_of_int port)\<rparr>;
          st4 = emit (Bind server_fd address) st3
      in if bind_res env < 0
         then (emit (Perror ''bind failed'') st4, Exit EXIT_FAILURE)
         else
     (let st5 = emit (Listen server_fd 3) st4
      in if listen_res env < 0
         then (emit (Perror ''listen'') st5, Exit EXIT_FAILURE)
         else (st5, Ok server_fd))))))"

text \<open>Line 55: \<^verbatim>\<open>printf("Server listening on port %d\n", port)\<close>.\<close>

definition listening_msg :: "int \<Rightarrow> event" where
  "listening_msg port = Printf (''Server listening on port '' @ dec_int port @ [nl])"

text \<open>Lines 14 to 55: everything before the loop.\<close>

definition startup :: "env \<Rightarrow> string list \<Rightarrow> proc \<times> int outcome" where
  "startup env argv =
     (let port = read_port argv
      in case bootstrap env port start of
           (st, Exit status) \<Rightarrow> (st, Exit status)
         | (st, Ok server_fd) \<Rightarrow> (emit (listening_msg port) st, Ok server_fd))"

text \<open>
  The string literal \<^verbatim>\<open>"hello\n"\<close> is seven bytes with its terminator;
  \<^verbatim>\<open>write(client_fd, "hello\n", 6)\<close> hands over the first six.
\<close>

definition hello_literal :: "byte list" where
  "hello_literal = map of_char (''hello'' @ [nl, CHR 0x00])"

text \<open>
  Lines 59 to 69, the body of the loop, with \<open>r\<close> what \<^verbatim>\<open>accept\<close> returns this time.
  \<^verbatim>\<open>continue\<close> ends the body early; no path of the body leaves the loop or the process.
\<close>

definition iteration :: "int \<Rightarrow> int \<Rightarrow> proc \<Rightarrow> proc" where
  "iteration server_fd r st =
     (let client_fd = r;
          st1 = acquire client_fd (emit (Accept server_fd) st)
      in if client_fd < 0
         then emit (Perror ''accept'') st1
         else
     (let st2 = emit (Printf (''Connection accepted'' @ [nl])) st1;
          st3 = emit (Write client_fd (take 6 hello_literal)) st2;
          st4 = emit (Printf (''Data written'' @ [nl])) st3;
          st5 = close_fd client_fd st4
      in emit (Printf (''Connection closed'' @ [nl])) st5))"

text \<open>
  Lines 57 to 70, \<^verbatim>\<open>while (1) { ... }\<close>. The loop may run forever, so its result is an
  option: \<open>None\<close> is the loop that never hands control back. \<open>i\<close> counts the calls of
  \<^verbatim>\<open>accept\<close> made so far.
\<close>

partial_function (option) serve :: "env \<Rightarrow> int \<Rightarrow> nat \<Rightarrow> proc \<Rightarrow> proc option" where
  "serve env server_fd i st =
     (if (1::int) \<noteq> 0
      then serve env server_fd (Suc i) (iteration server_fd (accept_res env i) st)
      else Some st)"

text \<open>
  The whole of \<^verbatim>\<open>main\<close>, lines 72 and 73 included: \<open>Some (st, status)\<close> when the process
  ends with \<open>status\<close>, \<open>None\<close> when it never ends.
\<close>

definition main :: "env \<Rightarrow> string list \<Rightarrow> (proc \<times> int) option" where
  "main env argv =
     (case startup env argv of
        (st, Exit status) \<Rightarrow> Some (st, status)
      | (st, Ok server_fd) \<Rightarrow>
          (case serve env server_fd 0 st of
             None \<Rightarrow> None
           | Some st' \<Rightarrow> Some (close_fd server_fd st', 0)))"

subsection \<open>Observing the running server\<close>

text \<open>
  A server that never ends has no final state. What it has done by a given moment is
  the state at the head of the loop: \<open>iterations env server_fd i n st\<close> is the state after
  \<open>n\<close> more passes through the body, starting at the \<open>i\<close>-th call of \<^verbatim>\<open>accept\<close>, and
  \<open>after env argv n\<close> the state of the whole process once \<open>n\<close> passes are done (or its
  last state, when the bootstrap ended it).
\<close>

fun iterations :: "env \<Rightarrow> int \<Rightarrow> nat \<Rightarrow> nat \<Rightarrow> proc \<Rightarrow> proc" where
  "iterations env server_fd i 0 st = st"
| "iterations env server_fd i (Suc n) st =
     iterations env server_fd (Suc i) n (iteration server_fd (accept_res env i) st)"

definition after :: "env \<Rightarrow> string list \<Rightarrow> nat \<Rightarrow> proc" where
  "after env argv n =
     (case startup env argv of
        (st, Exit status) \<Rightarrow> st
      | (st, Ok server_fd) \<Rightarrow> iterations env server_fd 0 n st)"

text \<open>The ports of the \<^verbatim>\<open>bind\<close> calls in a trace, as the kernel reads them.\<close>

fun bind_ports :: "bool \<Rightarrow> event list \<Rightarrow> nat list" where
  "bind_ports be [] = []"
| "bind_ports be (Bind fd a # es) = port_of be a # bind_ports be es"
| "bind_ports be (e # es) = bind_ports be es"

text \<open>
  The tests of the bootstrap, collected: the three that stand before \<^verbatim>\<open>bind\<close>, and all
  five.
\<close>

definition reaches_bind :: "env \<Rightarrow> bool" where
  "reaches_bind env = (socket_res env \<noteq> 0 \<and> reuseaddr_res env = 0 \<and> v6only_res env = 0)"

definition reaches_loop :: "env \<Rightarrow> bool" where
  "reaches_loop env = (reaches_bind env \<and> 0 \<le> bind_res env \<and> 0 \<le> listen_res env)"

subsection \<open>Two environments to compute with\<close>

text \<open>
  \<open>junk_address\<close> stands for what the stack holds before \<^verbatim>\<open>address\<close> is filled in. In
  \<open>busy_env\<close> every call of the bootstrap succeeds, the listening socket is descriptor 3,
  and every connection arrives as descriptor 4, except that the second call of
  \<^verbatim>\<open>accept\<close> fails. In \<open>no_socket_env\<close> the system has no socket to give: \<^verbatim>\<open>socket\<close>
  returns \<open>-1\<close>, and every call on that descriptor fails in turn.
\<close>

definition junk_address :: sockaddr_in6 where
  "junk_address =
     \<lparr>sin6_family = AF_INET, sin6_port = 0xBEEF, sin6_flowinfo = 0xDEAD,
      sin6_addr = 0x1234, sin6_scope_id = 7\<rparr>"

definition busy_env :: env where
  "busy_env =
     \<lparr>socket_res = 3, reuseaddr_res = 0, v6only_res = 0, bind_res = 0, listen_res = 0,
      accept_res = (\<lambda>i. if i = 1 then - 1 else 4),
      stack_address = junk_address, big_endian = False\<rparr>"

definition no_socket_env :: env where
  "no_socket_env =
     \<lparr>socket_res = - 1, reuseaddr_res = - 1, v6only_res = - 1, bind_res = - 1,
      listen_res = - 1, accept_res = (\<lambda>i. - 1),
      stack_address = junk_address, big_endian = False\<rparr>"

section \<open>Lemmas\<close>

subsection \<open>Decimal notation and atoi\<close>

lemma of_char_digit_char: "d < 10 \<Longrightarrow> (of_char (digit_char d) :: nat) = 48 + d"
  by (simp add: digit_char_def)

lemma isdigit_digit_char: "d < 10 \<Longrightarrow> isdigit (digit_char d)"
  by (simp add: isdigit_def of_char_digit_char)

lemma digit_val_digit_char: "d < 10 \<Longrightarrow> digit_val (digit_char d) = int d"
  by (simp add: digit_val_def of_char_digit_char)

lemma isdigit_not_space: "isdigit c \<Longrightarrow> \<not> isspace c"
  by (auto simp add: isdigit_def isspace_def)

lemma isdigit_not_sign: "isdigit c \<Longrightarrow> c \<noteq> CHR ''-'' \<and> c \<noteq> CHR ''+''"
  by (auto simp add: isdigit_def)

lemma dec_nat_small: "n < 10 \<Longrightarrow> dec_nat n = [digit_char n]"
  by (subst dec_nat.simps) simp

lemma dec_nat_large: "\<not> n < 10 \<Longrightarrow> dec_nat n = dec_nat (n div 10) @ [digit_char (n mod 10)]"
  by (subst dec_nat.simps) simp

lemma dec_nat_digits: "\<forall>c \<in> set (dec_nat n). isdigit c"
proof (induction n rule: dec_nat.induct)
  case (1 n)
  show ?case
  proof (cases "n < 10")
    case True
    then show ?thesis by (simp add: dec_nat_small isdigit_digit_char)
  next
    case False
    with 1 show ?thesis by (simp add: dec_nat_large isdigit_digit_char)
  qed
qed

lemma dec_nat_not_Nil: "dec_nat n \<noteq> []"
  by (cases "n < 10") (simp_all add: dec_nat_small dec_nat_large)

lemma digits_value_append:
  "\<forall>c \<in> set xs. isdigit c \<Longrightarrow>
   digits_value acc (xs @ ys) = digits_value (digits_value acc xs) ys"
  by (induction xs arbitrary: acc) simp_all

lemma digits_value_dec_nat: "digits_value 0 (dec_nat n) = int n"
proof (induction n rule: dec_nat.induct)
  case (1 n)
  show ?case
  proof (cases "n < 10")
    case True
    then show ?thesis
      by (simp add: dec_nat_small isdigit_digit_char digit_val_digit_char)
  next
    case False
    then have "digits_value 0 (dec_nat n) =
        digits_value (int (n div 10)) [digit_char (n mod 10)]"
      using 1 by (simp add: dec_nat_large digits_value_append dec_nat_digits)
    also have "\<dots> = 10 * int (n div 10) + int (n mod 10)"
      by (simp add: isdigit_digit_char digit_val_digit_char)
    also have "\<dots> = int n"
      by (simp add: zdiv_int zmod_int)
    finally show ?thesis .
  qed
qed

lemma atoi_dec_nat: "atoi (dec_nat n) = int n"
proof -
  obtain c cs where eq: "dec_nat n = c # cs"
    using dec_nat_not_Nil [of n] by (cases "dec_nat n") auto
  have "isdigit c"
    using dec_nat_digits [of n] eq by simp
  then have "atoi (c # cs) = digits_value 0 (c # cs)"
    using isdigit_not_space [of c] isdigit_not_sign [of c] by (simp add: atoi_def)
  then show ?thesis
    using digits_value_dec_nat [of n] eq by simp
qed

text \<open>Reading back what was written in decimal gives the number.\<close>

lemma atoi_dec_int: "atoi (dec_int i) = i"
proof (cases "i < 0")
  case True
  have "atoi (CHR ''-'' # dec_nat (nat (- i))) = - digits_value 0 (dec_nat (nat (- i)))"
    by (simp add: atoi_def isspace_def)
  with True show ?thesis
    by (simp add: dec_int_def digits_value_dec_nat)
next
  case False
  then show ?thesis
    by (simp add: dec_int_def atoi_dec_nat)
qed

lemma digits_value_no_digit:
  "(case cs of [] \<Rightarrow> True | d # _ \<Rightarrow> \<not> isdigit d) \<Longrightarrow> digits_value acc cs = acc"
  by (cases cs) simp_all

lemma atoi_no_number:
  assumes "\<not> has_number s"
  shows "atoi s = 0"
proof (cases "dropWhile isspace s")
  case Nil
  show ?thesis by (simp add: atoi_def Nil)
next
  case (Cons c cs)
  show ?thesis
  proof (cases "c = CHR ''-'' \<or> c = CHR ''+''")
    case True
    with assms have "case cs of [] \<Rightarrow> True | d # _ \<Rightarrow> \<not> isdigit d"
      by (auto simp add: has_number_def Cons split: list.splits)
    then have "digits_value 0 cs = 0"
      by (rule digits_value_no_digit)
    with True show ?thesis
      by (auto simp add: atoi_def Cons)
  next
    case False
    with assms have "\<not> isdigit c"
      by (simp add: has_number_def Cons)
    with False show ?thesis
      by (simp add: atoi_def Cons)
  qed
qed

text \<open>Rules that let the simplifier write a numeral in decimal.\<close>

lemmas dec_eval = dec_int_def dec_nat_small dec_nat_large digit_char_def char_of_eq_iff

subsection \<open>Byte order\<close>

lemma bswap16_bswap16: "bswap16 (bswap16 w) = w"
  unfolding bswap16_def
  by (rule bit_word_eqI) (auto simp add: bit_simps)

lemma ntohs_htons: "ntohs be (htons be w) = w"
  by (simp add: ntohs_def htons_def bswap16_bswap16)

lemma unat_port: "unat (word_of_int p :: 16 word) = nat (p mod 65536)"
  by (simp add: unat_eq_nat_uint uint_word_of_int take_bit_eq_mod)

subsection \<open>The loop\<close>

lemma serve_no_result:
  assumes "serve env server_fd i st = Some y"
  shows False
  by (rule serve.raw_induct [where P = "\<lambda>_ _ _ _ _. False", OF _ assms])
    (simp split: if_splits)

text \<open>The loop hands control back in no environment and from no state.\<close>

lemma serve_diverges: "serve env server_fd i st = None"
  using serve_no_result [of env server_fd i st]
  by (cases "serve env server_fd i st") auto

text \<open>The loop and its unrolling are the same loop: \<open>n\<close> passes on, it is still running.\<close>

lemma serve_unfold:
  "serve env server_fd i st =
   serve env server_fd (i + n) (iterations env server_fd i n st)"
proof (induction n arbitrary: i st)
  case 0
  show ?case by simp
next
  case (Suc n)
  have "serve env server_fd i st =
      serve env server_fd (Suc i) (iteration server_fd (accept_res env i) st)"
    by (subst serve.simps) simp
  also have "\<dots> = serve env server_fd (Suc i + n)
      (iterations env server_fd (Suc i) n (iteration server_fd (accept_res env i) st))"
    by (rule Suc.IH)
  finally show ?case by simp
qed

subsection \<open>Traces and descriptors\<close>

lemma trace_emit: "trace (emit e st) = trace st @ [e]"
  by (simp add: emit_def)

lemma fds_emit: "fds (emit e st) = fds st"
  by (simp add: emit_def)

lemma trace_acquire: "trace (acquire fd st) = trace st"
  by (simp add: acquire_def)

lemma fds_acquire: "fds (acquire fd st) = (if 0 \<le> fd then insert fd (fds st) else fds st)"
  by (simp add: acquire_def)

lemma trace_close_fd: "trace (close_fd fd st) = trace st @ [Close fd]"
  by (simp add: close_fd_def emit_def)

lemma fds_close_fd: "fds (close_fd fd st) = fds st - {fd}"
  by (simp add: close_fd_def)

lemmas proc_simps = trace_emit fds_emit trace_acquire fds_acquire trace_close_fd fds_close_fd

lemma hello_bytes: "take 6 hello_literal = [0x68, 0x65, 0x6c, 0x6c, 0x6f, 0x0a]"
  by (simp add: hello_literal_def nl_def)

lemma trace_iteration:
  "trace (iteration server_fd r st) = trace st @
     (if r < 0 then [Accept server_fd, Perror ''accept'']
      else [Accept server_fd,
            Printf (''Connection accepted'' @ [nl]),
            Write r [0x68, 0x65, 0x6c, 0x6c, 0x6f, 0x0a],
            Printf (''Data written'' @ [nl]),
            Close r,
            Printf (''Connection closed'' @ [nl])])"
  by (simp add: iteration_def Let_def proc_simps hello_bytes)

lemma fds_iteration:
  "fds (iteration server_fd r st) = (if r < 0 then fds st else fds st - {r})"
  by (simp add: iteration_def Let_def proc_simps)

lemma iterations_Suc:
  "iterations env server_fd i (Suc n) st =
   iteration server_fd (accept_res env (i + n)) (iterations env server_fd i n st)"
  by (induction n arbitrary: i st) simp_all

lemma iterations_add:
  "iterations env server_fd i (n + k) st =
   iterations env server_fd (i + n) k (iterations env server_fd i n st)"
  by (induction n arbitrary: i st) simp_all

lemma bootstrap_Ok:
  assumes "bootstrap env port st = (st', Ok fd)"
  shows "fd = socket_res env" and "reaches_loop env"
    and "trace st' = trace st @
      [Socket AF_INET6 SOCK_STREAM 0,
       Setsockopt fd SOL_SOCKET SO_REUSEADDR 1,
       Setsockopt fd IPPROTO_IPV6 IPV6_V6ONLY 0,
       Bind fd ((stack_address env)
         \<lparr>sin6_family := AF_INET6, sin6_addr := in6addr_any,
          sin6_port := htons (big_endian env) (word_of_int port)\<rparr>),
       Listen fd 3]"
    and "fds st' = (if 0 \<le> fd then insert fd (fds st) else fds st)"
  using assms
  by (auto simp add: bootstrap_def Let_def proc_simps reaches_loop_def reaches_bind_def split: if_splits)

lemma bootstrap_reaches_loop:
  "reaches_loop env \<Longrightarrow> snd (bootstrap env port st) = Ok (socket_res env)"
  by (simp add: bootstrap_def Let_def reaches_loop_def reaches_bind_def)

lemma bootstrap_Exit:
  "\<not> reaches_loop env \<Longrightarrow> snd (bootstrap env port st) = Exit EXIT_FAILURE"
  by (auto simp add: bootstrap_def Let_def reaches_loop_def reaches_bind_def)

lemma bootstrap_no_Printf:
  "Printf s \<in> set (trace (fst (bootstrap env port st))) \<Longrightarrow> Printf s \<in> set (trace st)"
  by (auto simp add: bootstrap_def Let_def proc_simps split: if_splits)

lemma bind_ports_append: "bind_ports be (xs @ ys) = bind_ports be xs @ bind_ports be ys"
  by (induction be xs rule: bind_ports.induct) simp_all

lemma port_of_address:
  "port_of be (a\<lparr>sin6_family := f, sin6_addr := x, sin6_port := htons be (word_of_int port)\<rparr>)
   = nat (port mod 65536)"
  by (simp add: port_of_def ntohs_htons unat_port)

lemma bind_ports_bootstrap:
  "bind_ports (big_endian env) (trace (fst (bootstrap env port st))) =
   bind_ports (big_endian env) (trace st) @
     (if reaches_bind env then [nat (port mod 65536)] else [])"
  by (simp add: bootstrap_def Let_def proc_simps reaches_bind_def bind_ports_append port_of_address)

lemma bind_ports_iteration:
  "bind_ports be (trace (iteration server_fd r st)) = bind_ports be (trace st)"
  by (simp add: trace_iteration bind_ports_append)

lemma bind_ports_iterations:
  "bind_ports be (trace (iterations env server_fd i n st)) = bind_ports be (trace st)"
  by (induction n arbitrary: i st) (simp_all add: bind_ports_iteration)

lemma bind_ports_after:
  "bind_ports (big_endian env) (trace (after env argv n)) =
     (if reaches_bind env then [nat (read_port argv mod 65536)] else [])"
proof -
  obtain st r where b: "bootstrap env (read_port argv) start = (st, r)"
    by (cases "bootstrap env (read_port argv) start")
  have "bind_ports (big_endian env) (trace st) =
      (if reaches_bind env then [nat (read_port argv mod 65536)] else [])"
    using bind_ports_bootstrap [of env "read_port argv" start] b by (simp add: start_def)
  then show ?thesis
    by (cases r)
      (simp_all add: after_def startup_def b Let_def bind_ports_iterations
        bind_ports_append trace_emit listening_msg_def)
qed

subsection \<open>The process at the head of the loop\<close>

lemma after_Ok:
  "snd (startup env argv) = Ok server_fd \<Longrightarrow>
   after env argv n = iterations env server_fd 0 n (fst (startup env argv))"
  by (cases "startup env argv") (simp add: after_def)

lemma after_Exit:
  "snd (startup env argv) = Exit status \<Longrightarrow> after env argv n = fst (startup env argv)"
  by (cases "startup env argv") (simp add: after_def)

lemma after_Suc:
  "snd (startup env argv) = Ok server_fd \<Longrightarrow>
   after env argv (Suc n) = iteration server_fd (accept_res env n) (after env argv n)"
  by (simp add: after_Ok iterations_Suc del: iterations.simps)

text \<open>Rules that let the simplifier run \<^verbatim>\<open>main\<close> in a given environment.\<close>

lemmas run_eval =
  main_def after_def startup_def bootstrap_def iteration_def read_port_def listening_msg_def
  Let_def proc_simps emit_def acquire_def close_fd_def start_def EXIT_FAILURE_def

subsection \<open>The start and runs of failed calls\<close>

lemma snd_startup:
  "snd (startup env argv) =
     (if reaches_loop env then Ok (socket_res env) else Exit EXIT_FAILURE)"
proof -
  obtain st r where b: "bootstrap env (read_port argv) start = (st, r)"
    by (cases "bootstrap env (read_port argv) start")
  show ?thesis
    using bootstrap_reaches_loop [of env "read_port argv" start]
      bootstrap_Exit [of env "read_port argv" start] b
    by (cases r) (auto simp add: startup_def Let_def)
qed

lemma startup_Ok:
  assumes "snd (startup env argv) = Ok server_fd"
  shows "trace (fst (startup env argv)) =
      [Socket AF_INET6 SOCK_STREAM 0,
       Setsockopt server_fd SOL_SOCKET SO_REUSEADDR 1,
       Setsockopt server_fd IPPROTO_IPV6 IPV6_V6ONLY 0,
       Bind server_fd ((stack_address env)
         \<lparr>sin6_family := AF_INET6, sin6_addr := in6addr_any,
          sin6_port := htons (big_endian env) (word_of_int (read_port argv))\<rparr>),
       Listen server_fd 3,
       listening_msg (read_port argv)]"
    and "fds (fst (startup env argv)) = (if 0 \<le> server_fd then {server_fd} else {})"
proof -
  obtain st r where b: "bootstrap env (read_port argv) start = (st, r)"
    by (cases "bootstrap env (read_port argv) start")
  with assms have r: "r = Ok server_fd"
    by (cases r) (simp_all add: startup_def Let_def)
  note ok = bootstrap_Ok [OF b [unfolded r]]
  show "trace (fst (startup env argv)) =
      [Socket AF_INET6 SOCK_STREAM 0,
       Setsockopt server_fd SOL_SOCKET SO_REUSEADDR 1,
       Setsockopt server_fd IPPROTO_IPV6 IPV6_V6ONLY 0,
       Bind server_fd ((stack_address env)
         \<lparr>sin6_family := AF_INET6, sin6_addr := in6addr_any,
          sin6_port := htons (big_endian env) (word_of_int (read_port argv))\<rparr>),
       Listen server_fd 3,
       listening_msg (read_port argv)]"
  proof -
    have "trace st =
      [Socket AF_INET6 SOCK_STREAM 0,
       Setsockopt server_fd SOL_SOCKET SO_REUSEADDR 1,
       Setsockopt server_fd IPPROTO_IPV6 IPV6_V6ONLY 0,
       Bind server_fd ((stack_address env)
         \<lparr>sin6_family := AF_INET6, sin6_addr := in6addr_any,
          sin6_port := htons (big_endian env) (word_of_int (read_port argv))\<rparr>),
       Listen server_fd 3]"
      using ok(3) by (simp add: start_def)
    then show ?thesis
      by (simp add: startup_def Let_def b r trace_emit)
  qed
  show "fds (fst (startup env argv)) = (if 0 \<le> server_fd then {server_fd} else {})"
  proof -
    have "fds st = (if 0 \<le> server_fd then {server_fd} else {})"
      using ok(4) by (simp add: start_def)
    then show ?thesis
      by (simp add: startup_def Let_def b r fds_emit)
  qed
qed

lemma startup_Exit_no_Printf:
  assumes "snd (startup env argv) = Exit status"
  shows "Printf s \<notin> set (trace (fst (startup env argv)))"
proof -
  obtain st r where b: "bootstrap env (read_port argv) start = (st, r)"
    by (cases "bootstrap env (read_port argv) start")
  with assms have r: "r = Exit status"
    by (cases r) (simp_all add: startup_def Let_def)
  have "Printf s \<notin> set (trace st)"
    using bootstrap_no_Printf [of s env "read_port argv" start] b by (auto simp add: start_def)
  then show ?thesis
    by (simp add: startup_def Let_def b r)
qed

lemma trace_iterations_prefix:
  "\<exists>es. trace (iterations env server_fd i n st) = trace st @ es"
proof (induction n arbitrary: i st)
  case 0
  show ?case by simp
next
  case (Suc n)
  obtain es where "trace (iterations env server_fd (Suc i) n
      (iteration server_fd (accept_res env i) st)) =
      trace (iteration server_fd (accept_res env i) st) @ es"
    using Suc.IH by blast
  then show ?case
    by (simp add: trace_iteration)
qed

lemma concat_replicate_Suc: "concat (replicate (Suc k) xs) = concat (replicate k xs) @ xs"
  by (induction k) simp_all

lemma refused_run:
  assumes ok: "snd (startup env argv) = Ok server_fd"
    and neg: "\<forall>j<k. accept_res env (n + j) < 0"
  shows "trace (after env argv (n + k)) = trace (after env argv n) @
           concat (replicate k [Accept server_fd, Perror ''accept'']) \<and>
         fds (after env argv (n + k)) = fds (after env argv n)"
  using neg
proof (induction k)
  case 0
  show ?case by simp
next
  case (Suc k)
  then have ih: "trace (after env argv (n + k)) = trace (after env argv n) @
           concat (replicate k [Accept server_fd, Perror ''accept''])"
      "fds (after env argv (n + k)) = fds (after env argv n)"
    by simp_all
  have r: "accept_res env (n + k) < 0"
    using Suc.prems by simp
  have step: "after env argv (n + Suc k) =
      iteration server_fd (accept_res env (n + k)) (after env argv (n + k))"
    using after_Suc [OF ok, of "n + k"] by simp
  from ih r show ?case
    by (simp only: step trace_iteration fds_iteration concat_replicate_Suc) simp
qed

lemma take_trace_after:
  assumes "snd (startup env argv) = Ok server_fd"
  shows "take 6 (trace (after env argv n)) = trace (fst (startup env argv))"
proof -
  obtain es where "trace (after env argv n) = trace (fst (startup env argv)) @ es"
    using trace_iterations_prefix [of env server_fd 0 n "fst (startup env argv)"]
    by (auto simp add: after_Ok [OF assms])
  moreover have "length (trace (fst (startup env argv))) = 6"
    by (simp add: startup_Ok(1) [OF assms])
  ultimately show ?thesis
    by simp
qed

lemma listener_invariant:
  assumes ok: "snd (startup env argv) = Ok server_fd" and fd: "0 \<le> server_fd"
  shows "\<forall>i<n. accept_res env i \<noteq> server_fd \<Longrightarrow>
     fds (after env argv n) = {server_fd} \<and> Close server_fd \<notin> set (trace (after env argv n))"
proof (induction n)
  case 0
  have "after env argv 0 = fst (startup env argv)"
    by (simp add: after_Ok [OF ok])
  then show ?case
    using fd by (simp add: startup_Ok [OF ok] listening_msg_def)
next
  case (Suc n)
  then have ih: "fds (after env argv n) = {server_fd}"
      "Close server_fd \<notin> set (trace (after env argv n))"
    by simp_all
  have r: "accept_res env n \<noteq> server_fd"
    using Suc.prems by simp
  with ih show ?case
    by (auto simp add: after_Suc [OF ok] trace_iteration fds_iteration)
qed

text \<open>Rules that let the simplifier run \<^verbatim>\<open>atoi\<close> on a string.\<close>

lemmas atoi_eval = atoi_def isspace_def isdigit_def digit_val_def

lemma reaches_bind_busy_env: "reaches_bind busy_env"
  by (simp add: reaches_bind_def busy_env_def)

text \<open>
  Whenever the bootstrap ends the process, the status is \<open>EXIT_FAILURE\<close> and the last thing
  done before was a report by \<^verbatim>\<open>perror\<close>, with nothing tried again.
\<close>

lemma exit_follows_perror:
  assumes "snd (bootstrap env port st) = Exit status"
  shows "status = EXIT_FAILURE \<and> (\<exists>msg. last (trace (fst (bootstrap env port st))) = Perror msg)"
  using assms
  by (auto simp add: bootstrap_def Let_def proc_simps split: if_splits)

text \<open>
  The failures that the tests of lines 25 to 53 catch, those of \<^verbatim>\<open>setsockopt\<close>, \<^verbatim>\<open>bind\<close>
  and \<^verbatim>\<open>listen\<close>: each ends \<^verbatim>\<open>main\<close> with status 1.
\<close>

lemma checked_failures_are_fatal:
  assumes "reuseaddr_res env \<noteq> 0 \<or> v6only_res env \<noteq> 0 \<or> bind_res env < 0 \<or> listen_res env < 0"
  shows "main env argv = Some (fst (startup env argv), 1)"
proof -
  have "\<not> reaches_loop env"
    using assms by (auto simp add: reaches_loop_def reaches_bind_def)
  then have "snd (startup env argv) = Exit EXIT_FAILURE"
    by (simp add: snd_startup)
  then show ?thesis
    by (cases "startup env argv") (simp add: main_def EXIT_FAILURE_def)
qed

section \<open>The claims\<close>

subsection \<open>The greeting\<close>

text \<open>
  Claim C2. For every connection that \<^verbatim>\<open>accept\<close> returns, the server writes exactly the six
  bytes \<^verbatim>\<open>hello\n\<close> (68 65 6c 6c 6f 0a) to that connection and then closes it; it sends no
  other bytes and reads nothing from the client.

  Whenever the \<open>n\<close>-th call of \<^verbatim>\<open>accept\<close> returns a descriptor, the pass through the loop
  that made the call adds exactly six events to what the process has done: the call of
  \<^verbatim>\<open>accept\<close>, one \<^verbatim>\<open>write\<close> of those six bytes to the new descriptor, its \<^verbatim>\<open>close\<close>,
  and the three console messages between them. No other call touches the connection.
  The bytes are those handed to \<^verbatim>\<open>write\<close>; what \<^verbatim>\<open>write\<close> returns is not looked at.
\<close>

theorem accepted_connection_gets_hello:
  assumes "snd (startup env argv) = Ok server_fd" and "0 \<le> accept_res env n"
  shows "trace (after env argv (Suc n)) = trace (after env argv n) @
      [Accept server_fd,
       Printf (''Connection accepted'' @ [nl]),
       Write (accept_res env n) [0x68, 0x65, 0x6c, 0x6c, 0x6f, 0x0a],
       Printf (''Data written'' @ [nl]),
       Close (accept_res env n),
       Printf (''Connection closed'' @ [nl])]"
  using assms by (simp add: after_Suc trace_iteration)

theorem accepted_connection_gets_hello_witness:
  "snd (startup busy_env [''server'']) = Ok 3 \<and> 0 \<le> accept_res busy_env 0 \<and>
   trace (after busy_env [''server''] (Suc 0)) = trace (after busy_env [''server''] 0) @
      [Accept 3,
       Printf (''Connection accepted'' @ [nl]),
       Write 4 [0x68, 0x65, 0x6c, 0x6c, 0x6f, 0x0a],
       Printf (''Data written'' @ [nl]),
       Close 4,
       Printf (''Connection closed'' @ [nl])]"
proof -
  have h1: "snd (startup busy_env [''server'']) = Ok 3"
    by (simp add: run_eval busy_env_def)
  have h2: "0 \<le> accept_res busy_env 0"
    by (simp add: busy_env_def)
  have "accept_res busy_env 0 = 4"
    by (simp add: busy_env_def)
  with accepted_connection_gets_hello [OF h1 h2] h1 h2 show ?thesis
    by simp
qed

subsection \<open>The loop has no exit\<close>

text \<open>
  Claim C5. The serve loop never exits on its own: once the bootstrap has succeeded, for
  every sequence of results of \<^verbatim>\<open>accept\<close> the process never reaches normal termination,
  so exit status 0 is unreachable from within the program, and the final \<^verbatim>\<open>close\<close> of the
  listening socket and the \<^verbatim>\<open>return 0\<close> are dead code.

  In every environment, so for every sequence \<open>accept_res env\<close>: \<^verbatim>\<open>main\<close> never ends with
  status 0, which only lines 72 and 73 could produce; when the bootstrap has passed,
  \<^verbatim>\<open>main\<close> does not end at all; and when it does end, it is the bootstrap that ended it,
  with \<open>EXIT_FAILURE\<close>.
\<close>

theorem serve_loop_never_returns:
  "(\<forall>st. main env argv \<noteq> Some (st, 0)) \<and>
   (\<forall>server_fd. snd (startup env argv) = Ok server_fd \<longrightarrow> main env argv = None) \<and>
   (\<forall>st status. main env argv = Some (st, status) \<longrightarrow>
      status = EXIT_FAILURE \<and> startup env argv = (st, Exit EXIT_FAILURE))"
proof (cases "startup env argv")
  case (Pair st r)
  show ?thesis
  proof (cases r)
    case (Exit status)
    have "snd (bootstrap env (read_port argv) start) = Exit status"
      using Pair Exit
      by (cases "bootstrap env (read_port argv) start")
        (auto simp add: startup_def Let_def split: outcome.splits)
    then have "status = EXIT_FAILURE"
      using bootstrap_Exit [of env "read_port argv" start]
        bootstrap_reaches_loop [of env "read_port argv" start]
      by (cases "reaches_loop env") auto
    with Pair Exit show ?thesis
      by (simp add: main_def EXIT_FAILURE_def)
  next
    case (Ok server_fd)
    with Pair show ?thesis
      by (simp add: main_def serve_diverges)
  qed
qed

theorem serve_loop_never_returns_witness:
  "snd (startup busy_env [''server'']) = Ok 3 \<and> main busy_env [''server''] = None"
proof -
  have h: "snd (startup busy_env [''server'']) = Ok 3"
    by (simp add: run_eval busy_env_def)
  with serve_loop_never_returns [of busy_env "[''server'']"] show ?thesis
    by blast
qed

subsection \<open>The order of the bootstrap\<close>

text \<open>
  Claim C6. A successful bootstrap performs, in order: create a stream socket, enable
  address reuse (\<^verbatim>\<open>SO_REUSEADDR\<close> set to 1), disable IPv6-only mode (\<^verbatim>\<open>IPV6_V6ONLY\<close> set to
  0), bind to the wildcard address on the configured port, and listen with a backlog of
  exactly 3.

  When the bootstrap passes, the calls it has made are these five, in this order and
  with these arguments, and no other. The address bound has family \<^verbatim>\<open>AF_INET6\<close>, the
  all-zero wildcard address, and as its port the value of \<^verbatim>\<open>port\<close> as a 16-bit number.
\<close>

theorem bootstrap_order:
  assumes "snd (bootstrap env port st) = Ok server_fd"
  shows "(let address = (stack_address env)
            \<lparr>sin6_family := AF_INET6, sin6_addr := in6addr_any,
             sin6_port := htons (big_endian env) (word_of_int port)\<rparr>
          in trace (fst (bootstrap env port st)) = trace st @
               [Socket AF_INET6 SOCK_STREAM 0,
                Setsockopt server_fd SOL_SOCKET SO_REUSEADDR 1,
                Setsockopt server_fd IPPROTO_IPV6 IPV6_V6ONLY 0,
                Bind server_fd address,
                Listen server_fd 3] \<and>
             sin6_family address = AF_INET6 \<and>
             sin6_addr address = 0 \<and>
             int (port_of (big_endian env) address) = port mod 65536)"
proof -
  obtain st' where "bootstrap env port st = (st', Ok server_fd)"
    using assms by (cases "bootstrap env port st") simp
  from bootstrap_Ok(3) [OF this] this show ?thesis
    by (simp add: Let_def port_of_address in6addr_any_def)
qed

theorem bootstrap_order_witness:
  "snd (bootstrap busy_env 1848 start) = Ok 3 \<and>
   trace (fst (bootstrap busy_env 1848 start)) =
     [Socket AF_INET6 SOCK_STREAM 0,
      Setsockopt 3 SOL_SOCKET SO_REUSEADDR 1,
      Setsockopt 3 IPPROTO_IPV6 IPV6_V6ONLY 0,
      Bind 3 \<lparr>sin6_family = AF_INET6, sin6_port = 0x3807, sin6_flowinfo = 0xDEAD,
              sin6_addr = 0, sin6_scope_id = 7\<rparr>,
      Listen 3 3]"
proof -
  have h: "snd (bootstrap busy_env 1848 start) = Ok 3"
    by (simp add: run_eval busy_env_def)
  have "htons False (1848 :: 16 word) = 0x3807"
    by (simp add: htons_def bswap16_def)
  with bootstrap_order [OF h] h show ?thesis
    by (simp add: Let_def busy_env_def junk_address_def start_def in6addr_any_def)
qed

subsection \<open>A failed accept\<close>

text \<open>
  Claim C4. For every pass through the serve loop in which \<^verbatim>\<open>accept\<close> fails, the failure
  is reported and the loop continues: the error is not fatal, the process does not
  terminate, and a later incoming connection is still accepted and served.

  Let the calls of \<^verbatim>\<open>accept\<close> numbered \<open>n\<close> to \<open>n + k - 1\<close> fail, for any \<open>k\<close>. Each of these
  passes does two things and no more, the call and its report by \<^verbatim>\<open>perror\<close>, and the
  descriptors held do not change; \<^verbatim>\<open>main\<close> does not end; and if the call after them
  returns a connection, that connection is served as any other.
\<close>

theorem failed_accept_is_retried:
  assumes "snd (startup env argv) = Ok server_fd"
    and "\<forall>j<k. accept_res env (n + j) < 0"
  shows "trace (after env argv (n + k)) = trace (after env argv n) @
           concat (replicate k [Accept server_fd, Perror ''accept'']) \<and>
         fds (after env argv (n + k)) = fds (after env argv n) \<and>
         main env argv = None \<and>
         (0 \<le> accept_res env (n + k) \<longrightarrow>
            trace (after env argv (Suc (n + k))) = trace (after env argv (n + k)) @
              [Accept server_fd,
               Printf (''Connection accepted'' @ [nl]),
               Write (accept_res env (n + k)) [0x68, 0x65, 0x6c, 0x6c, 0x6f, 0x0a],
               Printf (''Data written'' @ [nl]),
               Close (accept_res env (n + k)),
               Printf (''Connection closed'' @ [nl])])"
proof -
  have "main env argv = None"
    using assms(1) by (cases "startup env argv") (simp add: main_def serve_diverges)
  moreover have "0 \<le> accept_res env (n + k) \<longrightarrow>
      trace (after env argv (Suc (n + k))) = trace (after env argv (n + k)) @
        [Accept server_fd,
         Printf (''Connection accepted'' @ [nl]),
         Write (accept_res env (n + k)) [0x68, 0x65, 0x6c, 0x6c, 0x6f, 0x0a],
         Printf (''Data written'' @ [nl]),
         Close (accept_res env (n + k)),
         Printf (''Connection closed'' @ [nl])]"
    by (simp add: after_Suc [OF assms(1)] trace_iteration)
  ultimately show ?thesis
    using refused_run [OF assms] by simp
qed

theorem failed_accept_is_retried_witness:
  "snd (startup busy_env [''server'']) = Ok 3 \<and>
   accept_res busy_env 1 < 0 \<and>
   trace (after busy_env [''server''] (1 + 1)) =
     trace (after busy_env [''server''] 1) @
       concat (replicate 1 [Accept 3, Perror ''accept'']) \<and>
   main busy_env [''server''] = None \<and>
   0 \<le> accept_res busy_env (1 + 1) \<and>
   trace (after busy_env [''server''] (Suc (1 + 1))) =
     trace (after busy_env [''server''] (1 + 1)) @
       [Accept 3,
        Printf (''Connection accepted'' @ [nl]),
        Write (accept_res busy_env (1 + 1)) [0x68, 0x65, 0x6c, 0x6c, 0x6f, 0x0a],
        Printf (''Data written'' @ [nl]),
        Close (accept_res busy_env (1 + 1)),
        Printf (''Connection closed'' @ [nl])]"
proof -
  have h1: "snd (startup busy_env [''server'']) = Ok 3"
    by (simp add: run_eval busy_env_def)
  have h2: "\<forall>j<1. accept_res busy_env (1 + j) < 0"
    by (simp add: busy_env_def)
  have h3: "0 \<le> accept_res busy_env (1 + 1)"
    by (simp add: busy_env_def)
  have h4: "accept_res busy_env 1 < 0"
    by (simp add: busy_env_def)
  from failed_accept_is_retried [OF h1 h2] h1 h3 h4 show ?thesis
    by blast
qed

subsection \<open>The startup message\<close>

text \<open>
  Claim C7. The startup message \<^verbatim>\<open>Server listening on port N\<close> is printed only after the
  entire bootstrap (\<^verbatim>\<open>socket\<close>, both \<^verbatim>\<open>setsockopt\<close> calls, \<^verbatim>\<open>bind\<close>, \<^verbatim>\<open>listen\<close>) has
  succeeded; on any bootstrap failure the process exits with status 1 before that message
  is printed.

  The program tests the result of \<^verbatim>\<open>socket\<close> against 0, so a failed \<^verbatim>\<open>socket\<close>, which returns
  \<open>-1\<close>, is stopped by the next test only: \<^verbatim>\<open>setsockopt\<close> on the descriptor \<open>-1\<close>. The
  system refuses every call on a descriptor that is not open (\<^verbatim>\<open>EBADF\<close>), and this is the
  hypothesis: if \<^verbatim>\<open>socket\<close> failed, the first \<^verbatim>\<open>setsockopt\<close> fails. Then, at every moment
  \<open>n\<close> of the run: if the message has been printed, all five calls had succeeded, and the
  message is the sixth event, right after the five calls; and if any of the five calls
  fails, the process has ended with status 1 and has not printed the message.
\<close>

theorem listening_message_only_after_bootstrap:
  assumes "socket_res env < 0 \<longrightarrow> reuseaddr_res env \<noteq> 0"
  shows "(listening_msg (read_port argv) \<in> set (trace (after env argv n)) \<longrightarrow>
            0 \<le> socket_res env \<and> reuseaddr_res env = 0 \<and> v6only_res env = 0 \<and>
            0 \<le> bind_res env \<and> 0 \<le> listen_res env \<and>
            (\<exists>address. take 6 (trace (after env argv n)) =
               [Socket AF_INET6 SOCK_STREAM 0,
                Setsockopt (socket_res env) SOL_SOCKET SO_REUSEADDR 1,
                Setsockopt (socket_res env) IPPROTO_IPV6 IPV6_V6ONLY 0,
                Bind (socket_res env) address,
                Listen (socket_res env) 3,
                listening_msg (read_port argv)])) \<and>
         (socket_res env < 0 \<or> reuseaddr_res env \<noteq> 0 \<or> v6only_res env \<noteq> 0 \<or>
          bind_res env < 0 \<or> listen_res env < 0 \<longrightarrow>
            main env argv = Some (after env argv n, 1) \<and>
            listening_msg (read_port argv) \<notin> set (trace (after env argv n)))"
proof (cases "reaches_loop env")
  case True
  then have ok: "snd (startup env argv) = Ok (socket_res env)"
    by (simp add: snd_startup)
  have "0 \<le> socket_res env"
    using True assms by (auto simp add: reaches_loop_def reaches_bind_def)
  moreover have "\<exists>address. take 6 (trace (after env argv n)) =
               [Socket AF_INET6 SOCK_STREAM 0,
                Setsockopt (socket_res env) SOL_SOCKET SO_REUSEADDR 1,
                Setsockopt (socket_res env) IPPROTO_IPV6 IPV6_V6ONLY 0,
                Bind (socket_res env) address,
                Listen (socket_res env) 3,
                listening_msg (read_port argv)]"
    by (simp only: take_trace_after [OF ok] startup_Ok(1) [OF ok]) blast
  ultimately show ?thesis
    using True assms by (auto simp add: reaches_loop_def reaches_bind_def)
next
  case False
  then have ex: "snd (startup env argv) = Exit EXIT_FAILURE"
    by (simp add: snd_startup)
  then have "listening_msg (read_port argv) \<notin> set (trace (after env argv n))"
    using startup_Exit_no_Printf [OF ex] by (simp add: after_Exit listening_msg_def)
  moreover have "main env argv = Some (after env argv n, 1)"
    using ex by (cases "startup env argv") (simp add: main_def after_def EXIT_FAILURE_def)
  ultimately show ?thesis
    by simp
qed

theorem listening_message_only_after_bootstrap_witness:
  "socket_res no_socket_env < 0 \<and> reuseaddr_res no_socket_env \<noteq> 0 \<and>
   main no_socket_env [''server''] = Some (after no_socket_env [''server''] 0, 1) \<and>
   listening_msg (read_port [''server'']) \<notin> set (trace (after no_socket_env [''server''] 0)) \<and>
   listening_msg (read_port [''server'']) \<in> set (trace (after busy_env [''server''] 0)) \<and>
   0 \<le> socket_res busy_env \<and> reuseaddr_res busy_env = 0 \<and> v6only_res busy_env = 0 \<and>
   0 \<le> bind_res busy_env \<and> 0 \<le> listen_res busy_env"
proof -
  have h1: "socket_res no_socket_env < 0 \<longrightarrow> reuseaddr_res no_socket_env \<noteq> 0"
    by (simp add: no_socket_env_def)
  have h2: "socket_res no_socket_env < 0"
    by (simp add: no_socket_env_def)
  have h3: "socket_res busy_env < 0 \<longrightarrow> reuseaddr_res busy_env \<noteq> 0"
    by (simp add: busy_env_def)
  have h4: "listening_msg (read_port [''server'']) \<in> set (trace (after busy_env [''server''] 0))"
    by (simp add: after_def startup_def bootstrap_def Let_def proc_simps start_def busy_env_def)
  have h5: "reuseaddr_res no_socket_env \<noteq> 0"
    by (simp add: no_socket_env_def)
  from listening_message_only_after_bootstrap [OF h1, of "[''server'']" 0]
    listening_message_only_after_bootstrap [OF h3, of "[''server'']" 0]
    h2 h4 h5
  show ?thesis
    by blast
qed

subsection \<open>The descriptors held\<close>

text \<open>
  Claim C8. Invariant of the serve loop: the listening socket, once bound, is never closed
  while the loop runs, and each accepted connection's descriptor is closed before the next
  pass begins, so at every call of \<^verbatim>\<open>accept\<close> at most one connection handle is held.

  \<^verbatim>\<open>accept\<close> returns a descriptor that was not open, so never the listening one; with that,
  and with a listening socket that \<^verbatim>\<open>socket\<close> did return, at the head of the loop after any
  number \<open>n\<close> of passes, which is where the next \<^verbatim>\<open>accept\<close> is called: the process holds the
  listening descriptor and nothing else, so no connection handle at all; no
  \<^verbatim>\<open>close\<close> of the listening descriptor has been made; and each pass that got a connection
  made the \<^verbatim>\<open>close\<close> of it its last call and left it released.
\<close>

theorem listener_stays_open:
  assumes "snd (startup env argv) = Ok server_fd" and "0 \<le> server_fd"
    and "\<forall>i<n. accept_res env i \<noteq> server_fd"
  shows "fds (after env argv n) = {server_fd} \<and>
         card (fds (after env argv n) - {server_fd}) \<le> 1 \<and>
         Close server_fd \<notin> set (trace (after env argv n)) \<and>
         (\<forall>i<n. 0 \<le> accept_res env i \<longrightarrow>
            last (butlast (trace (after env argv (Suc i)))) = Close (accept_res env i) \<and>
            accept_res env i \<notin> fds (after env argv (Suc i)))"
proof -
  have inv: "fds (after env argv n) = {server_fd} \<and>
      Close server_fd \<notin> set (trace (after env argv n))"
    using listener_invariant [OF assms(1,2)] assms(3) by blast
  have "\<forall>i<n. 0 \<le> accept_res env i \<longrightarrow>
            last (butlast (trace (after env argv (Suc i)))) = Close (accept_res env i) \<and>
            accept_res env i \<notin> fds (after env argv (Suc i))"
  proof (intro allI impI)
    fix i
    assume i: "i < n" and r: "0 \<le> accept_res env i"
    have "\<forall>j<Suc i. accept_res env j \<noteq> server_fd"
      using assms(3) i by simp
    then have "fds (after env argv (Suc i)) = {server_fd}"
      using listener_invariant [OF assms(1,2), of "Suc i"] by blast
    moreover have "accept_res env i \<noteq> server_fd"
      using assms(3) i by simp
    moreover have "last (butlast (trace (after env argv (Suc i)))) = Close (accept_res env i)"
      using r by (simp add: after_Suc [OF assms(1)] trace_iteration butlast_append)
    ultimately show "last (butlast (trace (after env argv (Suc i)))) = Close (accept_res env i) \<and>
            accept_res env i \<notin> fds (after env argv (Suc i))"
      by simp
  qed
  with inv show ?thesis
    by simp
qed

theorem listener_stays_open_witness:
  "snd (startup busy_env [''server'']) = Ok 3 \<and> (0::int) \<le> 3 \<and>
   accept_res busy_env 0 \<noteq> 3 \<and> accept_res busy_env 1 \<noteq> 3 \<and>
   accept_res busy_env 2 \<noteq> 3 \<and>
   fds (after busy_env [''server''] 3) = {3} \<and>
   Close 3 \<notin> set (trace (after busy_env [''server''] 3)) \<and>
   accept_res busy_env 2 \<notin> fds (after busy_env [''server''] (Suc 2))"
proof -
  have h1: "snd (startup busy_env [''server'']) = Ok 3"
    by (simp add: run_eval busy_env_def)
  have h2: "(0::int) \<le> 3"
    by simp
  have h3: "\<forall>i<3. accept_res busy_env i \<noteq> 3"
    by (simp add: busy_env_def)
  have h4: "(2::nat) < 3" "0 \<le> accept_res busy_env 2"
    by (simp_all add: busy_env_def)
  have h5: "accept_res busy_env 0 \<noteq> 3" "accept_res busy_env 1 \<noteq> 3"
      "accept_res busy_env 2 \<noteq> 3"
    by (simp_all add: busy_env_def)
  from listener_stays_open [OF h1 h2 h3] h1 h2 h4 h5 show ?thesis
    by blast
qed

subsection \<open>The port\<close>

text \<open>
  Claim C3. With no command-line argument the server binds port 1848; when the first
  argument is a decimal integer \<open>N\<close>, the server binds port \<open>N\<close>.

  As stated this fails: the argument \<^verbatim>\<open>65536\<close> is a decimal integer, and the port handed to
  \<^verbatim>\<open>bind\<close> is 0. A port is 16 bits wide and \<^verbatim>\<open>main\<close> has no test of the range.
\<close>

theorem port_argument_counterexample:
  "dec_int 65536 = ''65536'' \<and> reaches_bind busy_env \<and>
   bind_ports (big_endian busy_env) (trace (after busy_env [''server'', ''65536''] 0)) = [0] \<and>
   bind_ports (big_endian busy_env) (trace (after busy_env [''server'', ''65536''] 0)) \<noteq> [65536]"
proof -
  have "read_port [''server'', ''65536''] = 65536"
    by (simp add: read_port_def atoi_eval)
  then have "bind_ports (big_endian busy_env) (trace (after busy_env [''server'', ''65536''] 0)) = [0]"
    by (simp add: bind_ports_after reaches_bind_busy_env)
  moreover have "dec_int 65536 = ''65536''"
    by (simp add: dec_eval)
  ultimately show ?thesis
    by (simp add: reaches_bind_busy_env)
qed

text \<open>
  Claim C3, amended. With no command-line argument the server binds port 1848; when the
  first argument is a decimal integer \<open>N\<close> with \<open>0 \<le> N \<le> 65535\<close>, the server binds port
  \<open>N\<close>.

  At every moment of the run the \<^verbatim>\<open>bind\<close> calls made are: one, with that port, when the
  three tests before \<^verbatim>\<open>bind\<close> have passed, and none otherwise.
\<close>

theorem port_argument_in_range:
  "bind_ports (big_endian env) (trace (after env [prog] n)) =
     (if reaches_bind env then [1848] else []) \<and>
   (0 \<le> N \<and> N \<le> 65535 \<longrightarrow>
      bind_ports (big_endian env) (trace (after env (prog # dec_int N # rest) n)) =
        (if reaches_bind env then [nat N] else []))"
proof -
  have "read_port [prog] = 1848"
    by (simp add: read_port_def)
  moreover have "read_port (prog # dec_int N # rest) = N"
    by (simp add: read_port_def atoi_dec_int)
  ultimately show ?thesis
    by (simp add: bind_ports_after)
qed

theorem port_argument_in_range_witness:
  "(0::int) \<le> 8080 \<and> (8080::int) \<le> 65535 \<and> dec_int 8080 = ''8080'' \<and>
   bind_ports (big_endian busy_env) (trace (after busy_env [''server''] 0)) = [1848] \<and>
   bind_ports (big_endian busy_env) (trace (after busy_env [''server'', ''8080''] 0)) = [8080]"
proof -
  have h: "dec_int 8080 = ''8080''"
    by (simp add: dec_eval)
  from port_argument_in_range [of busy_env "''server''" 0 8080 "[]"] h reaches_bind_busy_env
  show ?thesis
    by simp
qed

text \<open>
  Claim C9. If a first command-line argument is present but is not a parsable decimal
  integer, \<^verbatim>\<open>atoi\<close> returns 0 and the server binds port 0, not the default 1848; the
  default applies only when \<^verbatim>\<open>argc\<close> is 1.

  Not parsable is what \<^verbatim>\<open>atoi\<close> cannot read: after white space and one optional sign
  the argument does not go on with a digit. Then \<^verbatim>\<open>atoi\<close> gives 0, \<^verbatim>\<open>port\<close> is 0 and not
  1848, and the port handed to \<^verbatim>\<open>bind\<close> is 0. With the program name alone \<^verbatim>\<open>port\<close> is
  1848, and with any first argument it is what \<^verbatim>\<open>atoi\<close> makes of that argument.
\<close>

theorem unparsable_argument_binds_port_zero:
  assumes "1 < length argv" and "\<not> has_number (argv ! 1)"
  shows "atoi (argv ! 1) = 0 \<and> read_port argv = 0 \<and> read_port argv \<noteq> 1848 \<and>
         bind_ports (big_endian env) (trace (after env argv n)) =
           (if reaches_bind env then [0] else []) \<and>
         read_port [prog] = 1848 \<and>
         (\<forall>args. 1 < length args \<longrightarrow> read_port args = atoi (args ! 1))"
proof -
  have "atoi (argv ! 1) = 0"
    using assms(2) by (rule atoi_no_number)
  moreover from this have "read_port argv = 0"
    using assms(1) by (simp add: read_port_def)
  moreover from this have "bind_ports (big_endian env) (trace (after env argv n)) =
           (if reaches_bind env then [0] else [])"
    by (simp add: bind_ports_after)
  ultimately show ?thesis
    by (simp add: read_port_def)
qed

theorem unparsable_argument_binds_port_zero_witness:
  "1 < length [''server'', ''http''] \<and> \<not> has_number ([''server'', ''http''] ! 1) \<and>
   atoi ([''server'', ''http''] ! 1) = 0 \<and>
   bind_ports (big_endian busy_env) (trace (after busy_env [''server'', ''http''] 0)) = [0]"
proof -
  have h1: "1 < length [''server'', ''http'']"
    by simp
  have h2: "\<not> has_number ([''server'', ''http''] ! 1)"
    by (simp add: has_number_def isspace_def isdigit_def)
  from unparsable_argument_binds_port_zero [OF h1 h2, of busy_env 0] h1 h2
    reaches_bind_busy_env
  show ?thesis
    by simp
qed

text \<open>
  Claim C10. A numeric port argument outside \<open>0..65535\<close> is not rejected: the parsed
  \<^verbatim>\<open>int\<close> goes through \<^verbatim>\<open>htons\<close>, so the port bound is the argument reduced modulo
  \<open>2 ^ 16\<close>; the argument \<^verbatim>\<open>65536\<close> binds port 0.

  For every \<open>N\<close> that an \<^verbatim>\<open>int\<close> holds, in the range of ports or not: \<^verbatim>\<open>port\<close> is \<open>N\<close>, the
  port handed to \<^verbatim>\<open>bind\<close> is \<open>N mod 2 ^ 16\<close>, and whether the bootstrap passes or exits is
  what it is with no argument at all, so the value of the port rejects nothing.
\<close>

theorem out_of_range_port_wraps:
  assumes "in_int_range N" and "argv = prog # dec_int N # rest"
  shows "read_port argv = N \<and>
         bind_ports (big_endian env) (trace (after env argv n)) =
           (if reaches_bind env then [nat (N mod 2 ^ 16)] else []) \<and>
         snd (startup env argv) = snd (startup env [prog])"
proof -
  have "read_port argv = N"
    using assms(2) by (simp add: read_port_def atoi_dec_int)
  then show ?thesis
    by (simp add: bind_ports_after snd_startup)
qed

theorem out_of_range_port_wraps_witness:
  "in_int_range 65536 \<and> [''server'', ''65536''] = ''server'' # dec_int 65536 # [] \<and>
   read_port [''server'', ''65536''] = 65536 \<and>
   bind_ports (big_endian busy_env) (trace (after busy_env [''server'', ''65536''] 0)) = [0]"
proof -
  have h1: "in_int_range 65536"
    by (simp add: in_int_range_def)
  have d: "dec_int 65536 = ''65536''"
    by (simp add: dec_eval)
  have h2: "[''server'', ''65536''] = ''server'' # dec_int 65536 # []"
    by (simp add: d)
  from out_of_range_port_wraps [OF h1 h2, of busy_env 0] h1 h2 reaches_bind_busy_env
  show ?thesis
    by simp
qed

subsection \<open>A failed socket\<close>

text \<open>
  Claim C1. Every bootstrap failure (\<^verbatim>\<open>socket\<close>, either \<^verbatim>\<open>setsockopt\<close>, \<^verbatim>\<open>bind\<close>,
  \<^verbatim>\<open>listen\<close>) is fatal: the process prints the system error description and terminates
  immediately with exit status 1, with no retry; in particular, if socket creation fails,
  the process exits with status 1.

  \<^verbatim>\<open>socket\<close> returns \<open>-1\<close> when it fails, and line 19 tests \<^verbatim>\<open>== 0\<close>. Run where \<^verbatim>\<open>socket\<close>
  fails, \<^verbatim>\<open>main\<close> does not report \<^verbatim>\<open>socket failed\<close> and does not stop there: it calls
  \<^verbatim>\<open>setsockopt\<close> on descriptor \<open>-1\<close>, and ends with status 1 on the failure of that call,
  which it reports as a failure of \<^verbatim>\<open>setsockopt\<close>. Run where \<^verbatim>\<open>socket\<close> succeeds and returns
  descriptor 0, \<^verbatim>\<open>main\<close> reports \<^verbatim>\<open>socket failed\<close> and ends with status 1.
\<close>

theorem failed_socket_not_detected:
  "main no_socket_env [''server''] =
     Some (\<lparr>trace = [Socket AF_INET6 SOCK_STREAM 0,
                     Setsockopt (- 1) SOL_SOCKET SO_REUSEADDR 1,
                     Perror ''setsockopt''],
            fds = {}\<rparr>, 1) \<and>
   main (busy_env\<lparr>socket_res := 0\<rparr>) [''server''] =
     Some (\<lparr>trace = [Socket AF_INET6 SOCK_STREAM 0, Perror ''socket failed''],
            fds = {0}\<rparr>, 1)"
  by (simp add: run_eval no_socket_env_def busy_env_def)

end
